theory Spec2Isabelle
  imports Complex_Main
begin

unbundle bit_operations_syntax

section \<open>Native regions\<close>

text \<open>
  A device pixel is a pair of integer coordinates. The C++ code uses \<open>int\<close>; signed overflow
  of \<open>x+w\<close> is undefined behaviour there, so coordinates are modelled as unbounded integers.
  A native region handle (\<open>HRGN\<close>) is modelled by the set of pixels it covers; the null
  handle is \<open>None\<close> (\<open>Fl_Region\<close> is a pointer-like handle in the source).
\<close>

type_synonym pixel = "int \<times> int"
type_synonym HRGN = "pixel set"
type_synonym Fl_Region = "HRGN option"

text \<open>
  \<open>CreateRectRgn(left, top, right, bottom)\<close>: the right and bottom edges are exclusive. A
  rectangle without interior (\<open>right \<le> left\<close> or \<open>bottom \<le> top\<close>) is the empty region.
\<close>

definition CreateRectRgn :: "int \<Rightarrow> int \<Rightarrow> int \<Rightarrow> int \<Rightarrow> HRGN" where
  "CreateRectRgn x1 y1 x2 y2 = {x1..<x2} \<times> {y1..<y2}"

text \<open>\<open>CombineRgn(dest, a, b, RGN_AND)\<close>: the pixel-exact intersection, stored in \<open>dest\<close>.\<close>

definition CombineRgn_AND :: "HRGN \<Rightarrow> HRGN \<Rightarrow> HRGN" where
  "CombineRgn_AND a b = a \<inter> b"

text \<open>The return value of \<open>CombineRgn\<close> is \<open>NULLREGION\<close> exactly for an empty result.\<close>

definition NULLREGION :: "HRGN \<Rightarrow> bool" where
  "NULLREGION r = (r = {})"

definition EqualRgn :: "HRGN \<Rightarrow> HRGN \<Rightarrow> bool" where
  "EqualRgn a b = (a = b)"

text \<open>\<open>GetRgnBox\<close>: the bounding rectangle (left, top, right, bottom), right/bottom exclusive.\<close>

definition GetRgnBox :: "HRGN \<Rightarrow> int \<times> int \<times> int \<times> int" where
  "GetRgnBox r =
     (if r = {} then (0, 0, 0, 0)
      else (Min (fst ` r), Min (snd ` r), Max (fst ` r) + 1, Max (snd ` r) + 1))"

text \<open>\<open>RectInRegion\<close>: does any part of the rectangle lie inside the region?\<close>

definition RectInRegion :: "HRGN \<Rightarrow> int \<times> int \<times> int \<times> int \<Rightarrow> bool" where
  "RectInRegion r rect =
     (case rect of (x1, y1, x2, y2) \<Rightarrow> r \<inter> CreateRectRgn x1 y1 x2 y2 \<noteq> {})"

section \<open>The clip stack of the driver\<close>

text \<open>
  The fields of the driver that the clipping functions read and write. \<open>rstack\<close> is the
  fixed-size array of region handles, \<open>rstackptr\<close> the index of the current clip (an
  \<open>int\<close> in the source that never goes below 0 here, popping at the bottom being undefined).
  \<open>region_stack_max\<close> is a constant declared in a header outside the sources and is kept as
  a field. \<open>gc\<close> (the member \<open>gc_\<close>) is \<open>None\<close> when the driver has no device context,
  otherwise it holds the clip region selected into the device context. \<open>on_display\<close> says whether the current
  surface is the display device; \<open>LPtoDP\<close> and \<open>DPtoLP\<close> are the native coordinate
  transformations of the device context, and \<open>scale_region\<close> is the scaling of a region by
  the current scale factor. \<open>warnings\<close> collects the diagnostics given to \<open>Fl::warning\<close>.
\<close>

record clip_driver =
  rstack :: "Fl_Region list"
  rstackptr :: nat
  region_stack_max :: nat
  fl_clip_state_number :: int
  gc :: "Fl_Region option"
  on_display :: bool
  LPtoDP :: "pixel \<Rightarrow> pixel"
  DPtoLP :: "pixel \<Rightarrow> pixel"
  scale_region :: "HRGN \<Rightarrow> HRGN"
  warnings :: "string list"

text \<open>
  Modelled from the spec: \<open>XRectangleRegion\<close> is defined in a platform header that is not
  part of the sources at hand; it turns the requested rectangle into a region ("requested
  rect as region"). The regions of the clip stack are kept in device units. On the display
  these are the units of the arguments; on any other surface (a print context) the two
  corners are converted with the native logical-to-device transformation, the conversion
  that \<open>not_clipped\<close> applies to its rectangle and that \<open>clip_box\<close> undoes for its result.
\<close>

definition XRectangleRegion :: "clip_driver \<Rightarrow> int \<Rightarrow> int \<Rightarrow> int \<Rightarrow> int \<Rightarrow> HRGN" where
  "XRectangleRegion s x y w h =
     (if on_display s then CreateRectRgn x y (x + w) (y + h)
      else (case (LPtoDP s (x, y), LPtoDP s (x + w, y + h)) of
              ((l, t), (r, b)) \<Rightarrow> CreateRectRgn l t r b))"

text \<open>Modelled from the spec: \<open>Fl::warning\<close> lives outside the sources; it emits a diagnostic.\<close>

definition Fl_warning :: "string \<Rightarrow> clip_driver \<Rightarrow> clip_driver" where
  "Fl_warning msg s = s\<lparr>warnings := warnings s @ [msg]\<rparr>"

text \<open>
  Modelled from the spec: \<open>scale_clip\<close> and \<open>unscale_clip\<close> are declared outside the sources.
  \<open>scale_clip\<close> puts the scaled copy of the current region on top of the stack and hands
  back the unscaled original (or null if scaling changes nothing); \<open>unscale_clip\<close> puts a
  non-null original back.
\<close>

definition scale_clip :: "clip_driver \<Rightarrow> Fl_Region \<times> clip_driver" where
  "scale_clip s =
     (case rstack s ! rstackptr s of
        None \<Rightarrow> (None, s)
      | Some r \<Rightarrow>
          (let r2 = scale_region s r
           in if r2 = r then (None, s)
              else (Some r, s\<lparr>rstack := (rstack s)[rstackptr s := Some r2]\<rparr>)))"

definition unscale_clip :: "Fl_Region \<Rightarrow> clip_driver \<Rightarrow> clip_driver" where
  "unscale_clip r s =
     (case r of None \<Rightarrow> s
      | Some old \<Rightarrow> s\<lparr>rstack := (rstack s)[rstackptr s := Some old]\<rparr>)"

definition restore_clip :: "clip_driver \<Rightarrow> clip_driver" where
  "restore_clip s =
     (let s1 = s\<lparr>fl_clip_state_number := fl_clip_state_number s + 1\<rparr>
      in case gc s1 of
           None \<Rightarrow> s1
         | Some _ \<Rightarrow>
             (let (r, s2) = (if rstack s1 ! rstackptr s1 \<noteq> None then scale_clip s1
                             else (None, s1));
                  s3 = s2\<lparr>gc := Some (rstack s2 ! rstackptr s2)\<rparr>
              in if r \<noteq> None then unscale_clip r s3 else s3))"

text \<open>The text of the overflow diagnostic; it ends with a newline.\<close>

definition overflow_message :: string where
  "overflow_message =
     ''Fl_GDI_Graphics_Driver::push_clip: clip stack overflow!'' @ [CHR 0x0A]"

definition push_clip :: "clip_driver \<Rightarrow> int \<Rightarrow> int \<Rightarrow> int \<Rightarrow> int \<Rightarrow> clip_driver" where
  "push_clip s x y w h =
     (let r = (if w > 0 \<and> h > 0
               then (let r = XRectangleRegion s x y w h
                     in case rstack s ! rstackptr s of
                          Some current \<Rightarrow> CombineRgn_AND r current
                        | None \<Rightarrow> r)
               else CreateRectRgn 0 0 0 0);
          s1 = (if rstackptr s < region_stack_max s
                then s\<lparr>rstack := (rstack s)[rstackptr s + 1 := Some r],
                       rstackptr := rstackptr s + 1\<rparr>
                else Fl_warning overflow_message s)
      in restore_clip s1)"

text \<open>The result of \<open>clip_box\<close> is the tuple \<open>(X, Y, W, H, ret)\<close>.\<close>

definition clip_box ::
  "clip_driver \<Rightarrow> int \<Rightarrow> int \<Rightarrow> int \<Rightarrow> int \<Rightarrow> int \<times> int \<times> int \<times> int \<times> int" where
  "clip_box s x y w h =
     (case rstack s ! rstackptr s of
        None \<Rightarrow> (x, y, w, h, 0)
      | Some r \<Rightarrow>
          (let rr = XRectangleRegion s x y w h;
               temp = CombineRgn_AND rr r
           in if NULLREGION temp then (x, y, 0, 0, 2)
              else if EqualRgn temp rr then (x, y, w, h, 0)
              else (case GetRgnBox temp of (rl, rt, rr', rb) \<Rightarrow>
                      if \<not> on_display s
                      then (case (DPtoLP s (rl, rt), DPtoLP s (rr', rb)) of
                              ((X, Y), (X1, Y1)) \<Rightarrow> (X, Y, X1 - X, Y1 - Y, 1))
                      else (rl, rt, rr' - rl, rb - rt, 1))))"

definition not_clipped :: "clip_driver \<Rightarrow> int \<Rightarrow> int \<Rightarrow> int \<Rightarrow> int \<Rightarrow> bool" where
  "not_clipped s x y w h =
     (if x + w \<le> 0 \<or> y + h \<le> 0 then False
      else case rstack s ! rstackptr s of
             None \<Rightarrow> True
           | Some r \<Rightarrow>
               (let rect = (if \<not> on_display s
                            then (case (LPtoDP s (x, y), LPtoDP s (x + w, y + h)) of
                                    ((l, t), (r', b)) \<Rightarrow> (l, t, r', b))
                            else (x, y, x + w, y + h))
                in RectInRegion r rect))"

text \<open>
  Modelled from the spec: \<open>pop_clip\<close> is not defined in the sources at hand. It discards the
  top entry and reverts to the prior entry verbatim; popping past the bottom sentinel is
  undefined, which is the result \<open>None\<close>.
\<close>

definition pop_clip :: "clip_driver \<Rightarrow> clip_driver option" where
  "pop_clip s =
     (if rstackptr s = 0 then None
      else Some (restore_clip (s\<lparr>rstackptr := rstackptr s - 1\<rparr>)))"

text \<open>The pixels that the current clip lets through; the null region does not clip.\<close>

definition region_pixels :: "Fl_Region \<Rightarrow> pixel set" where
  "region_pixels r = (case r of None \<Rightarrow> UNIV | Some p \<Rightarrow> p)"

definition current_clip :: "clip_driver \<Rightarrow> pixel set" where
  "current_clip s = region_pixels (rstack s ! rstackptr s)"

text \<open>The array has \<open>region_stack_max + 1\<close> slots and the stack pointer stays inside it.\<close>

definition stack_ok :: "clip_driver \<Rightarrow> bool" where
  "stack_ok s = (length (rstack s) = region_stack_max s + 1 \<and> rstackptr s \<le> region_stack_max s)"

text \<open>A driver on the display with an empty clip stack of the given capacity.\<close>

definition fresh_driver :: "nat \<Rightarrow> clip_driver" where
  "fresh_driver m =
     \<lparr>rstack = replicate (m + 1) None, rstackptr = 0, region_stack_max = m,
      fl_clip_state_number = 0, gc = Some None, on_display = True,
      LPtoDP = (\<lambda>p. p), DPtoLP = (\<lambda>p. p), scale_region = (\<lambda>r. r), warnings = []\<rparr>"

text \<open>The status and the rectangle of a \<open>clip_box\<close> result.\<close>

definition ret_of :: "int \<times> int \<times> int \<times> int \<times> int \<Rightarrow> int" where
  "ret_of r = snd (snd (snd (snd r)))"

text \<open>The region that \<open>push_clip\<close> is meant to push for a request \<open>(x, y, w, h)\<close>.\<close>

definition pushed_region :: "clip_driver \<Rightarrow> int \<Rightarrow> int \<Rightarrow> int \<Rightarrow> int \<Rightarrow> HRGN" where
  "pushed_region s x y w h =
     (if 0 < w \<and> 0 < h then XRectangleRegion s x y w h \<inter> current_clip s else {})"

text \<open>
  Sequences of clip operations. \<open>run_ops\<close> is \<open>None\<close> as soon as a pop would go past the
  bottom of the stack.
\<close>

datatype clip_op = Push int int int int | Pop

fun run_ops :: "clip_driver \<Rightarrow> clip_op list \<Rightarrow> clip_driver option" where
  "run_ops s [] = Some s"
| "run_ops s (Push x y w h # ops) = run_ops (push_clip s x y w h) ops"
| "run_ops s (Pop # ops) = (case pop_clip s of None \<Rightarrow> None | Some s' \<Rightarrow> run_ops s' ops)"

text \<open>The start of every run: an intact array, the pointer at the unclipped bottom sentinel.\<close>

definition unclipped_start :: "clip_driver \<Rightarrow> bool" where
  "unclipped_start s = (stack_ok s \<and> rstackptr s = 0 \<and> rstack s ! 0 = None)"

text \<open>Every region on the stack lies inside the one below it.\<close>

definition nested :: "clip_driver \<Rightarrow> bool" where
  "nested s = (\<forall>N \<in> {1..rstackptr s}.
                 region_pixels (rstack s ! N) \<subseteq> region_pixels (rstack s ! (N - 1)))"

text \<open>
  Two example drivers: one on the display with the clip \<open>(0, 0, 10, 10)\<close> pushed, and one on
  a print surface whose device units are half a logical unit, with the same clip pushed
  (the region from \<open>(0, 0)\<close> to \<open>(20, 20)\<close> in device units).
\<close>

definition clipped_driver :: clip_driver where
  "clipped_driver = push_clip (fresh_driver 3) 0 0 10 10"

definition print_driver :: clip_driver where
  "print_driver =
     push_clip ((fresh_driver 3)\<lparr>on_display := False,
                                 LPtoDP := (\<lambda>(x, y). (2 * x, 2 * y)),
                                 DPtoLP := (\<lambda>(x, y). (x div 2, y div 2))\<rparr>) 0 0 10 10"

section \<open>Pens of the device context\<close>

text \<open>
  Native object handles are numbers, 0 being the null handle; a colour is a \<open>COLORREF\<close>
  number. The driver state that the drawing functions use: \<open>pens\<close> is the table of
  the live pen objects of the process and \<open>gdi_quota\<close> the number of objects it may hold
  (pen creation fails beyond it); \<open>dc_pen\<close> is the pen selected into the device context
  \<open>gc_\<close>; \<open>fl_RGB\<close> and \<open>fl_brush\<close> stand for the results of \<open>fl_RGB()\<close> and \<open>fl_brush()\<close>,
  the current colour and the brush of that colour; \<open>color\<close> is the current \<open>Fl_Color\<close> and
  \<open>scale\<close> the scale factor of the surface. The constant \<open>FL_WHITE\<close> is declared in a
  header outside the sources and is kept as a field.
\<close>

type_synonym HGDIOBJ = nat
type_synonym COLORREF = nat
type_synonym HBRUSH = nat

record LOGPEN =
  pen_color :: COLORREF
  pen_width :: int

record gdi_driver =
  pens :: "(HGDIOBJ \<times> LOGPEN) list"
  gdi_quota :: nat
  dc_pen :: HGDIOBJ
  fl_RGB :: COLORREF
  fl_brush :: HBRUSH
  color :: nat
  scale :: real
  FL_WHITE :: nat

definition is_pen :: "gdi_driver \<Rightarrow> HGDIOBJ \<Rightarrow> bool" where
  "is_pen s h = (h \<noteq> 0 \<and> map_of (pens s) h \<noteq> None)"

text \<open>A handle that no live object has.\<close>

definition new_handle :: "gdi_driver \<Rightarrow> HGDIOBJ" where
  "new_handle s = Suc (fold max (map fst (pens s)) 0)"

text \<open>
  \<open>ExtCreatePen\<close> with a solid brush of the given colour: a new pen of that width and colour,
  or the null handle when the process is out of objects.
\<close>

definition ExtCreatePen :: "int \<Rightarrow> COLORREF \<Rightarrow> gdi_driver \<Rightarrow> HGDIOBJ \<times> gdi_driver" where
  "ExtCreatePen width rgb s =
     (if gdi_quota s \<le> length (pens s) then (0, s)
      else (new_handle s,
            s\<lparr>pens := (new_handle s, \<lparr>pen_color = rgb, pen_width = width\<rparr>) # pens s\<rparr>))"

text \<open>
  \<open>SelectObject(gc_, h)\<close> for a pen: selects it and returns the pen selected before; fails,
  returning null and selecting nothing, when \<open>h\<close> is not a live pen.
\<close>

definition SelectObject :: "HGDIOBJ \<Rightarrow> gdi_driver \<Rightarrow> HGDIOBJ \<times> gdi_driver" where
  "SelectObject h s = (if is_pen s h then (dc_pen s, s\<lparr>dc_pen := h\<rparr>) else (0, s))"

text \<open>\<open>DeleteObject\<close>: frees a live pen that is not selected into the device context.\<close>

definition DeleteObject :: "HGDIOBJ \<Rightarrow> gdi_driver \<Rightarrow> gdi_driver" where
  "DeleteObject h s =
     (if is_pen s h \<and> h \<noteq> dc_pen s
      then s\<lparr>pens := filter (\<lambda>e. fst e \<noteq> h) (pens s)\<rparr> else s)"

definition change_pen_width :: "int \<Rightarrow> gdi_driver \<Rightarrow> HGDIOBJ \<times> gdi_driver" where
  "change_pen_width width s =
     (case ExtCreatePen width (fl_RGB s) s of
        (newpen, s1) \<Rightarrow> SelectObject newpen s1)"

definition reset_pen_width :: "HGDIOBJ \<Rightarrow> gdi_driver \<Rightarrow> gdi_driver" where
  "reset_pen_width data s =
     (case SelectObject data s of (prev, s1) \<Rightarrow> DeleteObject prev s1)"

text \<open>Colour and width of the pen that is selected into the device context.\<close>

definition selected_pen :: "gdi_driver \<Rightarrow> LOGPEN option" where
  "selected_pen s = map_of (pens s) (dc_pen s)"

section \<open>Drawing with integer coordinates\<close>

text \<open>
  A drawing function is modelled by the list of native calls it issues on the device
  context, in order. \<open>SetLineStyle\<close> records a call of the driver's \<open>line_style_unscaled\<close>.
\<close>

datatype line_style = FL_SOLID | FL_DOT

datatype gdi_call =
    SetLineStyle line_style int
  | MoveToEx int int
  | LineTo int int
  | SetPixel int int COLORREF
  | FillRect int int int int HBRUSH

text \<open>
  Modelled from the spec: the driver's \<open>floor\<close> is declared outside the sources. It maps a
  logical coordinate to a device pixel by scaling with the scale factor of the surface
  and rounding down.
\<close>

definition floor_scaled :: "gdi_driver \<Rightarrow> int \<Rightarrow> int" where
  "floor_scaled d x = \<lfloor>scale d * of_int x\<rfloor>"

text \<open>\<open>FillRect\<close> takes the rectangle as (left, top, right, bottom).\<close>

definition rectf_unscaled :: "gdi_driver \<Rightarrow> int \<Rightarrow> int \<Rightarrow> int \<Rightarrow> int \<Rightarrow> gdi_call list" where
  "rectf_unscaled d x y w h = [FillRect x y (x + w) (y + h) (fl_brush d)]"

text \<open>
  Modelled from the spec: \<open>rectf\<close> is declared outside the sources. A logical rectangle is
  converted to a device rectangle, \<open>floor\<close> of the coordinate for the lower bound and \<open>floor\<close>
  of coordinate + length - 1 for the upper bound, before the native call.
\<close>

definition rectf :: "gdi_driver \<Rightarrow> int \<Rightarrow> int \<Rightarrow> int \<Rightarrow> int \<Rightarrow> gdi_call list" where
  "rectf d x y w h =
     rectf_unscaled d (floor_scaled d x) (floor_scaled d y)
       (floor_scaled d (x + w - 1) - floor_scaled d x + 1)
       (floor_scaled d (y + h - 1) - floor_scaled d y + 1)"

definition point :: "gdi_driver \<Rightarrow> int \<Rightarrow> int \<Rightarrow> gdi_call list" where
  "point d x y = rectf d x y 1 1"

definition overlay_rect :: "gdi_driver \<Rightarrow> int \<Rightarrow> int \<Rightarrow> int \<Rightarrow> int \<Rightarrow> gdi_call list" where
  "overlay_rect d x y w h =
     (let right = floor_scaled d (x + w - 1); bottom = floor_scaled d (y + h - 1);
          x' = floor_scaled d x; y' = floor_scaled d y
      in [SetLineStyle (if color d = FL_WHITE d then FL_SOLID else FL_DOT) 1,
          MoveToEx x' y', LineTo right y', LineTo right bottom, LineTo x' bottom,
          LineTo x' y'])"

text \<open>
  The loops of \<open>focus_rect\<close>. \<open>focus_up px c n xx i\<close> is
  \<open>for (; xx < n; xx++, i++) if (i & 1) SetPixel(gc_, px(xx), c)\<close> and \<open>focus_down px c xx i\<close> is
  \<open>for (; xx > 0; xx--, i++) if (i & 1) SetPixel(gc_, px(xx), c)\<close>; both return the calls
  issued and the final value of the counter \<open>i\<close>, which the next loop continues.
\<close>

function focus_up ::
  "(int \<Rightarrow> pixel) \<Rightarrow> COLORREF \<Rightarrow> int \<Rightarrow> int \<Rightarrow> int \<Rightarrow> gdi_call list \<times> int" where
  "focus_up px c n xx i =
     (if xx < n
      then (case focus_up px c n (xx + 1) (i + 1) of
              (cs, i') \<Rightarrow>
                ((if i AND 1 \<noteq> 0 then [SetPixel (fst (px xx)) (snd (px xx)) c] else []) @ cs,
                 i'))
      else ([], i))"
  by pat_completeness auto
termination
  by (relation "measure (\<lambda>(px, c, n, xx, i). nat (n - xx))") auto

function focus_down ::
  "(int \<Rightarrow> pixel) \<Rightarrow> COLORREF \<Rightarrow> int \<Rightarrow> int \<Rightarrow> gdi_call list \<times> int" where
  "focus_down px c xx i =
     (if xx > 0
      then (case focus_down px c (xx - 1) (i + 1) of
              (cs, i') \<Rightarrow>
                ((if i AND 1 \<noteq> 0 then [SetPixel (fst (px xx)) (snd (px xx)) c] else []) @ cs,
                 i'))
      else ([], i))"
  by pat_completeness auto
termination
  by (relation "measure (\<lambda>(px, c, xx, i). nat xx)") auto

declare focus_up.simps [simp del] focus_down.simps [simp del]

definition focus_rect :: "gdi_driver \<Rightarrow> int \<Rightarrow> int \<Rightarrow> int \<Rightarrow> int \<Rightarrow> gdi_call list" where
  "focus_rect d x0 y0 w0 h0 =
     (let w = floor_scaled d (x0 + w0 - 1) - floor_scaled d x0 + 1;
          h = floor_scaled d (y0 + h0 - 1) - floor_scaled d y0 + 1;
          x = floor_scaled d x0; y = floor_scaled d y0;
          c = fl_RGB d
      in case focus_up (\<lambda>xx. (x + xx, y)) c w 0 1 of (c1, i1) \<Rightarrow>
         case focus_up (\<lambda>yy. (x + w, y + yy)) c h 0 i1 of (c2, i2) \<Rightarrow>
         case focus_down (\<lambda>xx. (x + xx, y + h)) c w i2 of (c3, i3) \<Rightarrow>
         case focus_down (\<lambda>yy. (x, y + yy)) c h i3 of (c4, i4) \<Rightarrow>
           c1 @ c2 @ c3 @ c4)"

text \<open>The two overloads of \<open>line_unscaled\<close> and of \<open>loop_unscaled\<close> get names of their own.\<close>

definition line_unscaled :: "gdi_driver \<Rightarrow> int \<Rightarrow> int \<Rightarrow> int \<Rightarrow> int \<Rightarrow> gdi_call list" where
  "line_unscaled d x y x1 y1 = [MoveToEx x y, LineTo x1 y1, SetPixel x1 y1 (fl_RGB d)]"

definition line_unscaled_3 ::
  "gdi_driver \<Rightarrow> int \<Rightarrow> int \<Rightarrow> int \<Rightarrow> int \<Rightarrow> int \<Rightarrow> int \<Rightarrow> gdi_call list" where
  "line_unscaled_3 d x y x1 y1 x2 y2 =
     [MoveToEx x y, LineTo x1 y1, LineTo x2 y2, SetPixel x2 y2 (fl_RGB d)]"

definition xyline_unscaled :: "int \<Rightarrow> int \<Rightarrow> int \<Rightarrow> gdi_call list" where
  "xyline_unscaled x y x1 = [MoveToEx x y, LineTo (x1 + 1) y]"

definition yxline_unscaled :: "int \<Rightarrow> int \<Rightarrow> int \<Rightarrow> gdi_call list" where
  "yxline_unscaled x y y1 = [MoveToEx x y, LineTo x (y1 + 1)]"

definition loop_unscaled :: "int \<Rightarrow> int \<Rightarrow> int \<Rightarrow> int \<Rightarrow> int \<Rightarrow> int \<Rightarrow> gdi_call list" where
  "loop_unscaled x y x1 y1 x2 y2 = [MoveToEx x y, LineTo x1 y1, LineTo x2 y2, LineTo x y]"

definition loop_unscaled_4 ::
  "int \<Rightarrow> int \<Rightarrow> int \<Rightarrow> int \<Rightarrow> int \<Rightarrow> int \<Rightarrow> int \<Rightarrow> int \<Rightarrow> gdi_call list" where
  "loop_unscaled_4 x y x1 y1 x2 y2 x3 y3 =
     [MoveToEx x y, LineTo x1 y1, LineTo x2 y2, LineTo x3 y3, LineTo x y]"

section \<open>The pixels that native calls set\<close>

text \<open>
  With a pen one pixel wide, \<open>LineTo\<close> along an axis sets the pixels from the current
  position up to, but not including, the end point.
\<close>

definition axis_line :: "pixel \<Rightarrow> pixel \<Rightarrow> pixel set" where
  "axis_line p q =
     (if snd p = snd q
      then (if fst p \<le> fst q then {fst p..<fst q} else {fst q<..fst p}) \<times> {snd p}
      else {fst p} \<times> (if snd p \<le> snd q then {snd p..<snd q} else {snd q<..snd p}))"

text \<open>
  Which pixels an oblique segment covers is up to the native rasteriser \<open>R\<close>, a parameter
  of the model.
\<close>

definition LineTo_pixels :: "(pixel \<Rightarrow> pixel \<Rightarrow> pixel set) \<Rightarrow> pixel \<Rightarrow> pixel \<Rightarrow> pixel set" where
  "LineTo_pixels R p q = (if snd p = snd q \<or> fst p = fst q then axis_line p q else R p q)"

text \<open>The pixels set by a list of calls, \<open>p\<close> being the current position before the first.\<close>

fun paint :: "(pixel \<Rightarrow> pixel \<Rightarrow> pixel set) \<Rightarrow> pixel \<Rightarrow> gdi_call list \<Rightarrow> pixel set" where
  "paint R p [] = {}"
| "paint R p (SetLineStyle st wd # cs) = paint R p cs"
| "paint R p (MoveToEx x y # cs) = paint R (x, y) cs"
| "paint R p (LineTo x y # cs) = LineTo_pixels R p (x, y) \<union> paint R (x, y) cs"
| "paint R p (SetPixel x y c # cs) = insert (x, y) (paint R p cs)"
| "paint R p (FillRect l t r b br # cs) = CreateRectRgn l t r b \<union> paint R p cs"

text \<open>
  The device span of a logical edge that starts at \<open>x\<close> and is \<open>w\<close> long: lower and upper
  device pixel, both inclusive.
\<close>

definition device_span :: "gdi_driver \<Rightarrow> int \<Rightarrow> int \<Rightarrow> int \<times> int" where
  "device_span d x w = (floor_scaled d x, floor_scaled d (x + w - 1))"

text \<open>The outline of the pixel rectangle with the inclusive bounds \<open>l, t, r, b\<close>.\<close>

definition on_perimeter :: "int \<Rightarrow> int \<Rightarrow> int \<Rightarrow> int \<Rightarrow> pixel \<Rightarrow> bool" where
  "on_perimeter l t r b p =
     (l \<le> fst p \<and> fst p \<le> r \<and> t \<le> snd p \<and> snd p \<le> b
      \<and> (fst p = l \<or> fst p = r \<or> snd p = t \<or> snd p = b))"

text \<open>Every call is a fill with the current brush.\<close>

definition brush_fill_only :: "gdi_driver \<Rightarrow> gdi_call list \<Rightarrow> bool" where
  "brush_fill_only d cs =
     list_all (\<lambda>c. case c of FillRect l t r b br \<Rightarrow> br = fl_brush d | _ \<Rightarrow> False) cs"

text \<open>A driver at scale 1 with a black pen one pixel wide selected.\<close>

definition unit_driver :: gdi_driver where
  "unit_driver =
     \<lparr>pens = [(1, \<lparr>pen_color = 0, pen_width = 1\<rparr>)], gdi_quota = 16, dc_pen = 1,
      fl_RGB = 0, fl_brush = 7, color = 0, scale = 1, FL_WHITE = 255\<rparr>"

section \<open>Facts about rectangles and regions\<close>

lemma mem_CreateRectRgn:
  "(p, q) \<in> CreateRectRgn a b c d \<longleftrightarrow> a \<le> p \<and> p < c \<and> b \<le> q \<and> q < d"
  by (auto simp: CreateRectRgn_def)

lemma CreateRectRgn_Int:
  "CreateRectRgn a b c d \<inter> CreateRectRgn a' b' c' d' =
   CreateRectRgn (max a a') (max b b') (min c c') (min d d')"
  by (auto simp: CreateRectRgn_def)

lemma CreateRectRgn_empty_iff: "CreateRectRgn a b c d = {} \<longleftrightarrow> c \<le> a \<or> d \<le> b"
  by (auto simp: CreateRectRgn_def)

lemma CreateRectRgn_degenerate: "c \<le> a \<or> d \<le> b \<Longrightarrow> CreateRectRgn a b c d = {}"
  by (simp add: CreateRectRgn_empty_iff)

lemma CreateRectRgn_eq_iff:
  assumes "a < c" "b < d"
  shows "CreateRectRgn a' b' c' d' = CreateRectRgn a b c d
         \<longleftrightarrow> a' = a \<and> b' = b \<and> c' = c \<and> d' = d"
proof
  assume eq: "CreateRectRgn a' b' c' d' = CreateRectRgn a b c d"
  have "(a, b) \<in> CreateRectRgn a b c d" and "(c - 1, d - 1) \<in> CreateRectRgn a b c d"
    using assms by (simp_all add: mem_CreateRectRgn)
  then have "(a, b) \<in> CreateRectRgn a' b' c' d'"
    and "(c - 1, d - 1) \<in> CreateRectRgn a' b' c' d'"
    using eq by simp_all
  then have n: "a' \<le> a" "b' \<le> b" "c \<le> c'" "d \<le> d'" "a' < c'" "b' < d'"
    by (simp_all add: mem_CreateRectRgn)
  then have "(a', b') \<in> CreateRectRgn a' b' c' d'"
    and "(c' - 1, d' - 1) \<in> CreateRectRgn a' b' c' d'"
    by (simp_all add: mem_CreateRectRgn)
  then have "(a', b') \<in> CreateRectRgn a b c d" and "(c' - 1, d' - 1) \<in> CreateRectRgn a b c d"
    using eq by simp_all
  then have "a \<le> a'" "b \<le> b'" "c' \<le> c" "d' \<le> d"
    by (simp_all add: mem_CreateRectRgn)
  with n show "a' = a \<and> b' = b \<and> c' = c \<and> d' = d"
    by simp
qed simp

lemma GetRgnBox_rect:
  assumes "a < c" "b < d"
  shows "GetRgnBox (CreateRectRgn a b c d) = (a, b, c, d)"
proof -
  have f: "fst ` ({a..<c} \<times> {b..<d}) = {a..<c}" and s: "snd ` ({a..<c} \<times> {b..<d}) = {b..<d}"
    using assms by auto
  have "Min {a..<c} = a" "Min {b..<d} = b"
    using assms by (auto intro: Min_eqI)
  moreover have "Max {a..<c} = c - 1" "Max {b..<d} = d - 1"
    using assms by (auto intro: Max_eqI)
  ultimately show ?thesis
    using assms by (simp add: GetRgnBox_def CreateRectRgn_def f s)
qed

lemma XRectangleRegion_display:
  "on_display s \<Longrightarrow> XRectangleRegion s x y w h = CreateRectRgn x y (x + w) (y + h)"
  by (simp add: XRectangleRegion_def)

lemma XRectangleRegion_nonempty:
  "on_display s \<Longrightarrow> 0 < w \<Longrightarrow> 0 < h \<Longrightarrow> XRectangleRegion s x y w h \<noteq> {}"
  by (simp add: XRectangleRegion_def CreateRectRgn_empty_iff)

lemma XRectangleRegion_no_extent:
  "on_display s \<Longrightarrow> w = 0 \<or> h = 0 \<Longrightarrow> XRectangleRegion s x y w h = {}"
  by (auto simp: XRectangleRegion_def CreateRectRgn_empty_iff)

lemmas rgn_eval = CreateRectRgn_degenerate XRectangleRegion_def CombineRgn_AND_def
  NULLREGION_def EqualRgn_def RectInRegion_def CreateRectRgn_Int CreateRectRgn_empty_iff
  CreateRectRgn_eq_iff GetRgnBox_rect

section \<open>What the clip functions leave alone\<close>

lemma list_update_back: "xs ! i = v \<Longrightarrow> xs[i := v] = xs"
  using list_update_id [of xs i] by simp

lemma restore_clip_rstack: "rstack (restore_clip s) = rstack s"
  by (auto simp: restore_clip_def scale_clip_def unscale_clip_def Let_def list_update_back
           split: option.splits prod.splits if_splits)

lemma restore_clip_rstackptr: "rstackptr (restore_clip s) = rstackptr s"
  by (auto simp: restore_clip_def scale_clip_def unscale_clip_def Let_def
           split: option.splits prod.splits if_splits)

lemma restore_clip_warnings: "warnings (restore_clip s) = warnings s"
  by (auto simp: restore_clip_def scale_clip_def unscale_clip_def Let_def
           split: option.splits prod.splits if_splits)

lemma restore_clip_region_stack_max: "region_stack_max (restore_clip s) = region_stack_max s"
  by (auto simp: restore_clip_def scale_clip_def unscale_clip_def Let_def
           split: option.splits prod.splits if_splits)

lemma restore_clip_frame:
  "on_display (restore_clip s) = on_display s"
  "DPtoLP (restore_clip s) = DPtoLP s"
  "LPtoDP (restore_clip s) = LPtoDP s"
  by (auto simp: restore_clip_def scale_clip_def unscale_clip_def Let_def
           split: option.splits prod.splits if_splits)

lemma push_clip_frame:
  "on_display (push_clip s x y w h) = on_display s"
  "DPtoLP (push_clip s x y w h) = DPtoLP s"
  "LPtoDP (push_clip s x y w h) = LPtoDP s"
  by (simp_all add: push_clip_def Let_def restore_clip_frame Fl_warning_def)

lemma push_clip_below_max:
  assumes "rstackptr s < region_stack_max s"
  shows "rstack (push_clip s x y w h) =
           (rstack s)[rstackptr s + 1 := Some (pushed_region s x y w h)]"
    and "rstackptr (push_clip s x y w h) = rstackptr s + 1"
    and "warnings (push_clip s x y w h) = warnings s"
    and "region_stack_max (push_clip s x y w h) = region_stack_max s"
  using assms
  by (auto simp: push_clip_def Let_def restore_clip_rstack restore_clip_rstackptr
        restore_clip_warnings restore_clip_region_stack_max pushed_region_def current_clip_def
        region_pixels_def CombineRgn_AND_def CreateRectRgn_def split: option.splits)

lemma push_clip_at_max:
  assumes "\<not> rstackptr s < region_stack_max s"
  shows "rstack (push_clip s x y w h) = rstack s"
    and "rstackptr (push_clip s x y w h) = rstackptr s"
    and "region_stack_max (push_clip s x y w h) = region_stack_max s"
    and "warnings (push_clip s x y w h) = warnings s @ [overflow_message]"
  using assms
  by (auto simp: push_clip_def Let_def restore_clip_rstack restore_clip_rstackptr
        restore_clip_region_stack_max restore_clip_warnings Fl_warning_def)

section \<open>The example drivers\<close>

lemma fresh_driver_top: "rstack (fresh_driver m) ! rstackptr (fresh_driver m) = None"
  by (simp add: fresh_driver_def)

lemma fresh_driver_stack_ok: "stack_ok (fresh_driver m)"
  by (simp add: fresh_driver_def stack_ok_def)

lemma push_clip_fresh:
  assumes "0 < m"
  shows "rstackptr (push_clip (fresh_driver m) x y w h) = 1"
    and "region_stack_max (push_clip (fresh_driver m) x y w h) = m"
    and "warnings (push_clip (fresh_driver m) x y w h) = []"
    and "length (rstack (push_clip (fresh_driver m) x y w h)) = m + 1"
    and "current_clip (push_clip (fresh_driver m) x y w h) =
           (if 0 < w \<and> 0 < h then CreateRectRgn x y (x + w) (y + h) else {})"
proof -
  have b: "rstackptr (fresh_driver m) < region_stack_max (fresh_driver m)"
    using assms by (simp add: fresh_driver_def)
  show "rstackptr (push_clip (fresh_driver m) x y w h) = 1"
    and "region_stack_max (push_clip (fresh_driver m) x y w h) = m"
    and "warnings (push_clip (fresh_driver m) x y w h) = []"
    and "length (rstack (push_clip (fresh_driver m) x y w h)) = m + 1"
    and "current_clip (push_clip (fresh_driver m) x y w h) =
           (if 0 < w \<and> 0 < h then CreateRectRgn x y (x + w) (y + h) else {})"
    using assms
    by (simp_all add: push_clip_below_max [OF b] current_clip_def)
       (simp_all add: fresh_driver_def pushed_region_def current_clip_def region_pixels_def
          XRectangleRegion_def)
qed

lemma clipped_driver_top:
  "rstack clipped_driver ! rstackptr clipped_driver = Some (CreateRectRgn 0 0 10 10)"
  by (simp add: clipped_driver_def push_clip_below_max fresh_driver_def pushed_region_def
        current_clip_def region_pixels_def XRectangleRegion_def)

lemma clipped_driver_on_display: "on_display clipped_driver"
  by (simp add: clipped_driver_def push_clip_frame fresh_driver_def)

lemma print_driver_top:
  "rstack print_driver ! rstackptr print_driver = Some (CreateRectRgn 0 0 20 20)"
  by (simp add: print_driver_def push_clip_below_max fresh_driver_def pushed_region_def
        current_clip_def region_pixels_def XRectangleRegion_def)

lemma print_driver_frame:
  "\<not> on_display print_driver"
  "DPtoLP print_driver = (\<lambda>(x, y). (x div 2, y div 2))"
  "LPtoDP print_driver = (\<lambda>(x, y). (2 * x, 2 * y))"
  by (simp_all add: print_driver_def push_clip_frame fresh_driver_def)

section \<open>clip\_box\<close>

lemma clip_box_cases:
  "clip_box s x y w h =
     (if rstack s ! rstackptr s = None then (x, y, w, h, 0)
      else if XRectangleRegion s x y w h \<inter> current_clip s = {} then (x, y, 0, 0, 2)
      else if XRectangleRegion s x y w h \<subseteq> current_clip s then (x, y, w, h, 0)
      else (case GetRgnBox (XRectangleRegion s x y w h \<inter> current_clip s) of
              (rl, rt, rr', rb) \<Rightarrow>
                if \<not> on_display s
                then (case (DPtoLP s (rl, rt), DPtoLP s (rr', rb)) of
                        ((X, Y), (X1, Y1)) \<Rightarrow> (X, Y, X1 - X, Y1 - Y, 1))
                else (rl, rt, rr' - rl, rb - rt, 1)))"
  by (auto simp: clip_box_def current_clip_def region_pixels_def Let_def CombineRgn_AND_def
        NULLREGION_def EqualRgn_def split: option.splits)

lemma print_driver_XRectangleRegion:
  "XRectangleRegion print_driver x y w h =
     CreateRectRgn (2 * x) (2 * y) (2 * (x + w)) (2 * (y + h))"
  by (simp add: XRectangleRegion_def print_driver_frame)

text \<open>
  C1, as amended: for every query rectangle and every clip state, with the query
  rectangle taken as the region \<open>XRectangleRegion\<close> makes of it. If that region covers at
  least one pixel (on the display: whenever \<open>w > 0\<close> and \<open>h > 0\<close>), \<open>clip_box\<close> returns status
  2 exactly when the rectangle and the current clip share no pixel, and status 0 exactly
  when the rectangle is a subset of the current clip (the null region clips nothing). If
  it covers no pixel (on the display: whenever \<open>w = 0\<close> or \<open>h = 0\<close>), the status is 0 when
  the current region is null and 2 otherwise. With status 2 the result is \<open>(x, y, 0, 0)\<close>,
  with status 0 it is the input, and in every other case the status is 1 and
  \<open>(X, Y, W, H)\<close> is the bounding box of the intersection, its corners converted back
  with the device-to-logical transformation when the surface is not the display.
\<close>

theorem clip_box_status:
  "case clip_box s x y w h of (X, Y, W, H, ret) \<Rightarrow>
     (XRectangleRegion s x y w h \<noteq> {} \<longrightarrow>
        (ret = 2 \<longleftrightarrow> XRectangleRegion s x y w h \<inter> current_clip s = {})
      \<and> (ret = 0 \<longleftrightarrow> XRectangleRegion s x y w h \<subseteq> current_clip s))
   \<and> (XRectangleRegion s x y w h = {} \<longrightarrow>
        (ret = 0 \<longleftrightarrow> rstack s ! rstackptr s = None)
      \<and> (ret = 2 \<longleftrightarrow> rstack s ! rstackptr s \<noteq> None))
   \<and> (ret = 2 \<longrightarrow> (X, Y, W, H) = (x, y, 0, 0))
   \<and> (ret = 0 \<longrightarrow> (X, Y, W, H) = (x, y, w, h))
   \<and> (ret \<noteq> 0 \<and> ret \<noteq> 2 \<longrightarrow>
        ret = 1 \<and>
        (let I = XRectangleRegion s x y w h \<inter> current_clip s;
             lo = (Min (fst ` I), Min (snd ` I));
             hi = (Max (fst ` I) + 1, Max (snd ` I) + 1)
         in if on_display s then (X, Y) = lo \<and> (X + W, Y + H) = hi
            else (X, Y) = DPtoLP s lo \<and> (X + W, Y + H) = DPtoLP s hi))
   \<and> (on_display s \<and> 0 < w \<and> 0 < h \<longrightarrow> XRectangleRegion s x y w h \<noteq> {})
   \<and> (on_display s \<and> (w = 0 \<or> h = 0) \<longrightarrow> XRectangleRegion s x y w h = {})"
proof -
  let ?R = "XRectangleRegion s x y w h"
  have ext: "on_display s \<and> 0 < w \<and> 0 < h \<longrightarrow> ?R \<noteq> {}"
    "on_display s \<and> (w = 0 \<or> h = 0) \<longrightarrow> ?R = {}"
    using XRectangleRegion_nonempty [of s w h x y] XRectangleRegion_no_extent [of s w h x y]
    by blast+
  show ?thesis
  proof (cases "rstack s ! rstackptr s = None")
    case True
    then have "current_clip s = UNIV" by (simp add: current_clip_def region_pixels_def)
    then show ?thesis using True ext by (simp add: clip_box_cases)
  next
    case top: False
    show ?thesis
    proof (cases "?R \<inter> current_clip s = {}")
      case True
      then have "?R \<noteq> {} \<longrightarrow> \<not> ?R \<subseteq> current_clip s" by blast
      then show ?thesis using top True ext by (simp add: clip_box_cases)
    next
      case meet: False
      then have ne: "?R \<noteq> {}" by blast
      show ?thesis
      proof (cases "?R \<subseteq> current_clip s")
        case True
        then show ?thesis using top meet ne ext by (simp add: clip_box_cases)
      next
        case False
        then show ?thesis using top meet ne ext
          by (simp add: clip_box_cases GetRgnBox_def Let_def split: prod.splits)
      qed
    qed
  qed
qed

text \<open>
  The scenarios of the specification, an empty query and a query on the print surface.
\<close>

theorem clip_box_status_witness:
  "clip_box clipped_driver 5 5 10 10 = (5, 5, 5, 5, 1)
   \<and> XRectangleRegion clipped_driver 5 5 10 10 \<noteq> {}
   \<and> clip_box (fresh_driver 3) 10 10 5 5 = (10, 10, 5, 5, 0)
   \<and> XRectangleRegion (fresh_driver 3) 10 10 5 5 \<subseteq> current_clip (fresh_driver 3)
   \<and> clip_box (push_clip (fresh_driver 3) 20 20 5 5) 0 0 5 5 = (0, 0, 0, 0, 2)
   \<and> XRectangleRegion (push_clip (fresh_driver 3) 20 20 5 5) 0 0 5 5
         \<inter> current_clip (push_clip (fresh_driver 3) 20 20 5 5) = {}
   \<and> XRectangleRegion clipped_driver 7 7 0 3 = {}
   \<and> clip_box clipped_driver 7 7 0 3 = (7, 7, 0, 0, 2)
   \<and> clip_box (fresh_driver 3) 7 7 0 3 = (7, 7, 0, 3, 0)
   \<and> clip_box print_driver 5 5 10 10 = (5, 5, 5, 5, 1)"
proof -
  let ?far = "push_clip (fresh_driver 3) 20 20 5 5"
  have d: "on_display clipped_driver" "on_display (fresh_driver 3)" "on_display ?far"
    by (simp_all add: clipped_driver_on_display push_clip_frame) (simp_all add: fresh_driver_def)
  have t: "rstack ?far ! rstackptr ?far = Some (CreateRectRgn 20 20 25 25)"
    by (simp add: push_clip_below_max fresh_driver_def pushed_region_def current_clip_def
          region_pixels_def XRectangleRegion_def)
  have e: "clip_box clipped_driver 5 5 10 10 = (5, 5, 5, 5, 1)"
    "clip_box (fresh_driver 3) 10 10 5 5 = (10, 10, 5, 5, 0)"
    "clip_box ?far 0 0 5 5 = (0, 0, 0, 0, 2)"
    "clip_box clipped_driver 7 7 0 3 = (7, 7, 0, 0, 2)"
    "clip_box (fresh_driver 3) 7 7 0 3 = (7, 7, 0, 3, 0)"
    by (simp_all add: clip_box_def clipped_driver_top fresh_driver_top t d
          XRectangleRegion_display rgn_eval Let_def)
  have pr: "clip_box print_driver 5 5 10 10 = (5, 5, 5, 5, 1)"
    by (simp add: clip_box_def print_driver_top print_driver_frame
          print_driver_XRectangleRegion rgn_eval Let_def)
  have q: "XRectangleRegion clipped_driver 5 5 10 10 \<noteq> {}"
    "XRectangleRegion clipped_driver 7 7 0 3 = {}"
    by (simp_all add: XRectangleRegion_display d rgn_eval)
  show ?thesis
    using d q
      clip_box_status [of clipped_driver 5 5 10 10]
      clip_box_status [of "fresh_driver 3" 10 10 5 5]
      clip_box_status [of ?far 0 0 5 5]
      clip_box_status [of clipped_driver 7 7 0 3]
      clip_box_status [of "fresh_driver 3" 7 7 0 3]
      clip_box_status [of print_driver 5 5 10 10]
    by (simp add: e pr XRectangleRegion_display)
qed

text \<open>
  The claim as written fails for a query rectangle without pixels: such a rectangle
  shares no pixel with any clip and is a subset of every clip. With nothing pushed, the
  query \<open>(0, 0, 0, 0)\<close> gets status 0, not 2; with the clip \<open>(0, 0, 10, 10)\<close> pushed, it gets
  status 2, not 0.
\<close>

theorem clip_box_status_counterexample:
  "XRectangleRegion (fresh_driver 3) 0 0 0 0 \<inter> current_clip (fresh_driver 3) = {}
   \<and> clip_box (fresh_driver 3) 0 0 0 0 = (0, 0, 0, 0, 0)
   \<and> XRectangleRegion clipped_driver 0 0 0 0 \<subseteq> current_clip clipped_driver
   \<and> clip_box clipped_driver 0 0 0 0 = (0, 0, 0, 0, 2)"
proof -
  have d: "on_display clipped_driver" "on_display (fresh_driver 3)"
    by (simp_all add: clipped_driver_on_display fresh_driver_def)
  show ?thesis
    by (simp add: clip_box_def fresh_driver_top clipped_driver_top d XRectangleRegion_display
          rgn_eval Let_def)
qed

section \<open>push\_clip\<close>

text \<open>
  C2, as amended: while the stack is below its maximum depth, \<open>push_clip\<close> moves the stack
  pointer up by one and stores there the pixel-exact intersection of the rectangle with the
  region that was current (the rectangle itself when nothing clipped), if \<open>w > 0\<close> and
  \<open>h > 0\<close>, and the empty region otherwise. The entries below are untouched and no
  diagnostic is emitted in either case.
\<close>

theorem push_clip_pushes:
  assumes "stack_ok s" "rstackptr s < region_stack_max s"
  shows "rstackptr (push_clip s x y w h) = rstackptr s + 1
       \<and> rstack (push_clip s x y w h) ! (rstackptr s + 1) =
           Some (if 0 < w \<and> 0 < h then XRectangleRegion s x y w h \<inter> current_clip s else {})
       \<and> current_clip (push_clip s x y w h) =
           (if 0 < w \<and> 0 < h then XRectangleRegion s x y w h \<inter> current_clip s else {})
       \<and> take (rstackptr s + 1) (rstack (push_clip s x y w h)) =
           take (rstackptr s + 1) (rstack s)
       \<and> warnings (push_clip s x y w h) = warnings s"
proof -
  have len: "rstackptr s + 1 < length (rstack s)"
    using assms by (simp add: stack_ok_def)
  then show ?thesis
    by (simp add: push_clip_below_max [OF assms(2)] pushed_region_def current_clip_def
          region_pixels_def)
qed

theorem push_clip_pushes_witness:
  "stack_ok clipped_driver \<and> rstackptr clipped_driver < region_stack_max clipped_driver
   \<and> current_clip clipped_driver = CreateRectRgn 0 0 10 10
   \<and> rstackptr (push_clip clipped_driver 5 5 10 10) = 2
   \<and> current_clip (push_clip clipped_driver 5 5 10 10) = CreateRectRgn 5 5 10 10
   \<and> current_clip (push_clip clipped_driver 5 5 0 10) = {}
   \<and> warnings (push_clip clipped_driver 5 5 0 10) = []"
proof -
  have v: "rstackptr clipped_driver = 1" "region_stack_max clipped_driver = 3"
    "warnings clipped_driver = []" "length (rstack clipped_driver) = 4"
    "current_clip clipped_driver = CreateRectRgn 0 0 10 10"
    using push_clip_fresh [of 3 0 0 10 10] by (simp_all add: clipped_driver_def)
  have c: "stack_ok clipped_driver"
    and d: "rstackptr clipped_driver < region_stack_max clipped_driver"
    by (simp_all add: stack_ok_def v)
  show ?thesis
    using c d push_clip_pushes [OF c d, of 5 5 10 10] push_clip_pushes [OF c d, of 5 5 0 10]
    by (simp add: v XRectangleRegion_display clipped_driver_on_display CreateRectRgn_Int)
qed

text \<open>
  Without the bound on the depth the claim fails: on a stack of capacity 1 that holds the
  clip \<open>(0, 0, 10, 10)\<close>, \<open>push_clip(2, 2, 3, 3)\<close> pushes nothing. The stack pointer stays
  where it is, and the current clip stays \<open>(0, 0, 10, 10)\<close> instead of becoming the
  intersection, the box from \<open>(2, 2)\<close> to \<open>(5, 5)\<close>.
\<close>

theorem push_clip_pushes_counterexample:
  "rstackptr (push_clip (fresh_driver 1) 0 0 10 10) = 1
   \<and> rstackptr (push_clip (push_clip (fresh_driver 1) 0 0 10 10) 2 2 3 3) = 1
   \<and> XRectangleRegion (push_clip (fresh_driver 1) 0 0 10 10) 2 2 3 3
         \<inter> current_clip (push_clip (fresh_driver 1) 0 0 10 10)
       = CreateRectRgn 2 2 5 5
   \<and> current_clip (push_clip (push_clip (fresh_driver 1) 0 0 10 10) 2 2 3 3)
       \<noteq> CreateRectRgn 2 2 5 5"
proof -
  have v: "rstackptr (push_clip (fresh_driver 1) 0 0 10 10) = 1"
    "region_stack_max (push_clip (fresh_driver 1) 0 0 10 10) = 1"
    "current_clip (push_clip (fresh_driver 1) 0 0 10 10) = CreateRectRgn 0 0 10 10"
    using push_clip_fresh [of 1 0 0 10 10] by simp_all
  have full: "\<not> rstackptr (push_clip (fresh_driver 1) 0 0 10 10)
                 < region_stack_max (push_clip (fresh_driver 1) 0 0 10 10)"
    using v by simp
  have "current_clip (push_clip (push_clip (fresh_driver 1) 0 0 10 10) 2 2 3 3)
          = CreateRectRgn 0 0 10 10"
    using v push_clip_at_max [OF full, of 2 2 3 3] by (simp add: current_clip_def)
  moreover have "on_display (push_clip (fresh_driver 1) 0 0 10 10)"
    by (simp add: push_clip_frame) (simp add: fresh_driver_def)
  ultimately show ?thesis
    using v push_clip_at_max [OF full, of 2 2 3 3]
    by (simp add: XRectangleRegion_display rgn_eval)
qed

text \<open>
  C4: when the stack pointer has reached \<open>region_stack_max\<close>, \<open>push_clip\<close> emits the
  overflow diagnostic, returns normally, and leaves the array of regions, the stack
  pointer and hence the current clip region as they were.
\<close>

theorem push_clip_overflow:
  assumes "region_stack_max s \<le> rstackptr s"
  shows "warnings (push_clip s x y w h) = warnings s @ [overflow_message]
         \<and> rstackptr (push_clip s x y w h) = rstackptr s
         \<and> rstack (push_clip s x y w h) = rstack s
         \<and> current_clip (push_clip s x y w h) = current_clip s"
  using assms
  by (simp add: push_clip_def Let_def restore_clip_rstack restore_clip_rstackptr
        restore_clip_warnings Fl_warning_def current_clip_def)

theorem push_clip_overflow_witness:
  "region_stack_max (push_clip (fresh_driver 1) 0 0 10 10)
     \<le> rstackptr (push_clip (fresh_driver 1) 0 0 10 10)
   \<and> warnings (push_clip (push_clip (fresh_driver 1) 0 0 10 10) 2 2 3 3) = [overflow_message]
   \<and> rstackptr (push_clip (push_clip (fresh_driver 1) 0 0 10 10) 2 2 3 3) = 1
   \<and> current_clip (push_clip (push_clip (fresh_driver 1) 0 0 10 10) 2 2 3 3)
       = CreateRectRgn 0 0 10 10"
proof -
  have v: "rstackptr (push_clip (fresh_driver 1) 0 0 10 10) = 1"
    "region_stack_max (push_clip (fresh_driver 1) 0 0 10 10) = 1"
    "warnings (push_clip (fresh_driver 1) 0 0 10 10) = []"
    "current_clip (push_clip (fresh_driver 1) 0 0 10 10) = CreateRectRgn 0 0 10 10"
    using push_clip_fresh [of 1 0 0 10 10] by simp_all
  have h: "region_stack_max (push_clip (fresh_driver 1) 0 0 10 10)
             \<le> rstackptr (push_clip (fresh_driver 1) 0 0 10 10)"
    using v by simp
  show ?thesis
    using h v push_clip_overflow [OF h, of 2 2 3 3] by simp
qed

section \<open>Nesting of the stack\<close>

lemma pushed_region_narrows: "pushed_region s x y w h \<subseteq> current_clip s"
  by (auto simp: pushed_region_def)

lemma push_clip_stack_ok: "stack_ok s \<Longrightarrow> stack_ok (push_clip s x y w h)"
  by (cases "rstackptr s < region_stack_max s")
     (auto simp: stack_ok_def push_clip_below_max push_clip_at_max)

lemma push_clip_nested:
  assumes "stack_ok s" "nested s"
  shows "nested (push_clip s x y w h)"
proof (cases "rstackptr s < region_stack_max s")
  case False
  then show ?thesis using assms(2) by (simp add: nested_def push_clip_at_max)
next
  case below: True
  have len: "rstackptr s + 1 < length (rstack s)"
    using below assms(1) by (simp add: stack_ok_def)
  show ?thesis
    unfolding nested_def
  proof
    fix N assume N: "N \<in> {1..rstackptr (push_clip s x y w h)}"
    then have N1: "1 \<le> N" and N2: "N \<le> rstackptr s + 1"
      by (simp_all add: push_clip_below_max [OF below])
    show "region_pixels (rstack (push_clip s x y w h) ! N) \<subseteq>
          region_pixels (rstack (push_clip s x y w h) ! (N - 1))"
    proof (cases "N = rstackptr s + 1")
      case True
      then show ?thesis
        using len pushed_region_narrows [of s x y w h]
        by (simp add: push_clip_below_max [OF below] region_pixels_def current_clip_def)
    next
      case False
      then have "N \<in> {1..rstackptr s}" using N1 N2 by simp
      then have "region_pixels (rstack s ! N) \<subseteq> region_pixels (rstack s ! (N - 1))"
        using assms(2) by (simp add: nested_def)
      then show ?thesis
        using False N1 N2 by (simp add: push_clip_below_max [OF below])
    qed
  qed
qed

lemma pop_clip_inv:
  assumes "pop_clip s = Some s'" "stack_ok s" "nested s"
  shows "stack_ok s' \<and> nested s'"
proof -
  have s': "s' = restore_clip (s\<lparr>rstackptr := rstackptr s - 1\<rparr>)"
    using assms(1) by (auto simp: pop_clip_def split: if_splits)
  have ok: "stack_ok s'"
    using assms(2)
    by (auto simp: s' stack_ok_def restore_clip_rstack restore_clip_rstackptr
          restore_clip_region_stack_max)
  have "nested s'"
    unfolding nested_def
  proof
    fix N assume "N \<in> {1..rstackptr s'}"
    then have "N \<in> {1..rstackptr s}"
      by (auto simp: s' restore_clip_rstackptr)
    then have "region_pixels (rstack s ! N) \<subseteq> region_pixels (rstack s ! (N - 1))"
      using assms(3) unfolding nested_def by blast
    then show "region_pixels (rstack s' ! N) \<subseteq> region_pixels (rstack s' ! (N - 1))"
      by (simp add: s' restore_clip_rstack)
  qed
  with ok show ?thesis by simp
qed

lemma run_ops_inv:
  "stack_ok s \<Longrightarrow> nested s \<Longrightarrow> run_ops s ops = Some s' \<Longrightarrow> stack_ok s' \<and> nested s'"
proof (induction s ops rule: run_ops.induct)
  case (1 s)
  then show ?case by simp
next
  case (2 s x y w h ops)
  then show ?case by (simp add: push_clip_stack_ok push_clip_nested)
next
  case (3 s ops)
  then show ?case by (auto split: option.splits dest: pop_clip_inv)
qed

lemma push_clip_narrows:
  assumes "stack_ok s"
  shows "current_clip (push_clip s x y w h) \<subseteq> current_clip s"
proof (cases "rstackptr s < region_stack_max s")
  case True
  then have "rstackptr s + 1 < length (rstack s)"
    using assms by (simp add: stack_ok_def)
  then have "current_clip (push_clip s x y w h) = pushed_region s x y w h"
    by (simp add: current_clip_def push_clip_below_max [OF True] region_pixels_def)
  then show ?thesis by (simp add: pushed_region_narrows)
next
  case False
  then show ?thesis by (simp add: current_clip_def push_clip_at_max)
qed

text \<open>
  C5: in every state reached from the unclipped bottom sentinel by a sequence of
  \<open>push_clip\<close> and \<open>pop_clip\<close> that never pops past the bottom, the region at each depth
  \<open>N \<ge> 1\<close> up to the stack pointer is a subset of (or equal to) the region at depth \<open>N - 1\<close>,
  and a further \<open>push_clip\<close> narrows the current clip region or leaves it as it is.
\<close>

theorem clip_stack_nested:
  assumes "unclipped_start s" "run_ops s ops = Some s'"
  shows "(\<forall>N \<in> {1..rstackptr s'}.
            region_pixels (rstack s' ! N) \<subseteq> region_pixels (rstack s' ! (N - 1)))
       \<and> current_clip (push_clip s' x y w h) \<subseteq> current_clip s'"
proof -
  have "stack_ok s" "nested s"
    using assms(1) by (simp_all add: unclipped_start_def nested_def)
  then have "stack_ok s'" "nested s'" using run_ops_inv assms(2) by blast+
  then show ?thesis by (simp add: nested_def push_clip_narrows)
qed

theorem clip_stack_nested_witness:
  "unclipped_start (fresh_driver 3)
   \<and> (\<exists>s'. run_ops (fresh_driver 3) [Push 0 0 10 10, Pop, Push 0 0 10 10, Push 5 5 10 10]
              = Some s'
          \<and> rstackptr s' = 2
          \<and> region_pixels (rstack s' ! 2) \<subseteq> region_pixels (rstack s' ! 1)
          \<and> region_pixels (rstack s' ! 1) \<subseteq> region_pixels (rstack s' ! 0))"
proof -
  let ?ops = "[Push 0 0 10 10, Pop, Push 0 0 10 10, Push 5 5 10 10]"
  let ?s1 = "restore_clip (clipped_driver\<lparr>rstackptr := 0\<rparr>)"
  let ?s2 = "push_clip ?s1 0 0 10 10"
  let ?s3 = "push_clip ?s2 5 5 10 10"
  have st: "unclipped_start (fresh_driver 3)"
    by (simp add: unclipped_start_def stack_ok_def fresh_driver_def)
  have v: "rstackptr clipped_driver = 1" "region_stack_max clipped_driver = 3"
    using push_clip_fresh [of 3 0 0 10 10] by (simp_all add: clipped_driver_def)
  have pop: "pop_clip clipped_driver = Some ?s1"
    by (simp add: pop_clip_def v)
  have b1: "rstackptr ?s1 < region_stack_max ?s1"
    by (simp add: restore_clip_rstackptr restore_clip_region_stack_max v)
  have p2: "rstackptr ?s2 = 1" "region_stack_max ?s2 = 3"
    by (simp_all add: push_clip_below_max [OF b1] restore_clip_rstackptr
          restore_clip_region_stack_max v)
  then have b2: "rstackptr ?s2 < region_stack_max ?s2" by simp
  have p3: "rstackptr ?s3 = 2"
    by (simp add: push_clip_below_max [OF b2] p2)
  have run: "run_ops (fresh_driver 3) ?ops = Some ?s3"
    using pop by (simp add: clipped_driver_def)
  have all: "\<forall>N \<in> {1..rstackptr ?s3}.
          region_pixels (rstack ?s3 ! N) \<subseteq> region_pixels (rstack ?s3 ! (N - 1))"
    using clip_stack_nested [OF st run, of 0 0 1 1] by (rule conjunct1)
  have "(2::nat) \<in> {1..rstackptr ?s3}" and "(1::nat) \<in> {1..rstackptr ?s3}"
    by (simp_all add: p3)
  then have "region_pixels (rstack ?s3 ! 2) \<subseteq> region_pixels (rstack ?s3 ! (2 - 1))"
    and "region_pixels (rstack ?s3 ! 1) \<subseteq> region_pixels (rstack ?s3 ! (1 - 1))"
    using all by blast+
  then show ?thesis
    using st run p3 by simp
qed

section \<open>not\_clipped\<close>

text \<open>
  C3, as amended: for every rectangle and every clip state, \<open>not_clipped\<close> returns true
  exactly when \<open>x + w > 0\<close>, \<open>y + h > 0\<close> and \<open>clip_box\<close> reports status 0 or 1; it returns
  false exactly when \<open>x + w \<le> 0\<close> or \<open>y + h \<le> 0\<close> or \<open>clip_box\<close> reports status 2.
\<close>

theorem not_clipped_vs_clip_box:
  "(not_clipped s x y w h \<longleftrightarrow>
      0 < x + w \<and> 0 < y + h \<and> ret_of (clip_box s x y w h) \<in> {0, 1})
   \<and> (\<not> not_clipped s x y w h \<longleftrightarrow>
      x + w \<le> 0 \<or> y + h \<le> 0 \<or> ret_of (clip_box s x y w h) = 2)"
  by (auto simp: not_clipped_def clip_box_def ret_of_def Let_def RectInRegion_def
        XRectangleRegion_def CombineRgn_AND_def NULLREGION_def EqualRgn_def Int_commute
        split: option.splits prod.splits)

theorem not_clipped_vs_clip_box_witness:
  "not_clipped clipped_driver 5 5 10 10
   \<and> ret_of (clip_box clipped_driver 5 5 10 10) = 1
   \<and> \<not> not_clipped clipped_driver 20 20 5 5
   \<and> ret_of (clip_box clipped_driver 20 20 5 5) = 2
   \<and> not_clipped print_driver 6 6 2 2
   \<and> ret_of (clip_box print_driver 6 6 2 2) = 0
   \<and> \<not> not_clipped print_driver 12 12 2 2
   \<and> ret_of (clip_box print_driver 12 12 2 2) = 2"
proof -
  have e: "clip_box clipped_driver 5 5 10 10 = (5, 5, 5, 5, 1)"
    "clip_box clipped_driver 20 20 5 5 = (20, 20, 0, 0, 2)"
    by (simp_all add: clip_box_def clipped_driver_top clipped_driver_on_display
          XRectangleRegion_display rgn_eval Let_def)
  have pr: "clip_box print_driver 6 6 2 2 = (6, 6, 2, 2, 0)"
    "clip_box print_driver 12 12 2 2 = (12, 12, 0, 0, 2)"
    by (simp_all add: clip_box_def print_driver_top print_driver_frame
          print_driver_XRectangleRegion rgn_eval Let_def)
  show ?thesis
    using not_clipped_vs_clip_box [of clipped_driver 5 5 10 10]
      not_clipped_vs_clip_box [of clipped_driver 20 20 5 5]
      not_clipped_vs_clip_box [of print_driver 6 6 2 2]
      not_clipped_vs_clip_box [of print_driver 12 12 2 2]
    by (simp add: e pr ret_of_def)
qed

text \<open>
  The claim as written fails for a rectangle that ends at or before the origin. With
  nothing pushed, \<open>(-10, -10, 5, 5)\<close> is rejected by \<open>not_clipped\<close> although \<open>clip_box\<close>
  reports status 0; the same holds with the clip \<open>(-10, -10, 5, 5)\<close> itself pushed.
\<close>

theorem not_clipped_vs_clip_box_counterexample:
  "\<not> not_clipped (fresh_driver 3) (-10) (-10) 5 5
   \<and> clip_box (fresh_driver 3) (-10) (-10) 5 5 = (-10, -10, 5, 5, 0)
   \<and> \<not> not_clipped (push_clip (fresh_driver 3) (-10) (-10) 5 5) (-10) (-10) 5 5
   \<and> clip_box (push_clip (fresh_driver 3) (-10) (-10) 5 5) (-10) (-10) 5 5
       = (-10, -10, 5, 5, 0)"
proof -
  let ?neg = "push_clip (fresh_driver 3) (-10) (-10) 5 5"
  have d: "on_display ?neg"
    by (simp add: push_clip_frame) (simp add: fresh_driver_def)
  have t: "rstack ?neg ! rstackptr ?neg = Some (CreateRectRgn (-10) (-10) (-5) (-5))"
    by (simp add: push_clip_below_max fresh_driver_def pushed_region_def current_clip_def
          region_pixels_def XRectangleRegion_def)
  show ?thesis
    by (simp add: not_clipped_def clip_box_def fresh_driver_top t d XRectangleRegion_display
          rgn_eval Let_def)
qed

section \<open>The pen round trip\<close>

lemma fold_max_ge: "k \<in> set ks \<Longrightarrow> k \<le> fold max ks (m::nat)"
proof (induction ks arbitrary: m)
  case Nil then show ?case by simp
next
  case (Cons a ks)
  have mono: "\<And>n. n \<le> fold max ks n"
  proof -
    fix n show "n \<le> fold max ks n"
    proof (induction ks arbitrary: n)
      case Nil then show ?case by simp
    next
      case (Cons b ks)
      have "max b n \<le> fold max ks (max b n)" by (rule Cons.IH)
      then show ?case by simp
    qed
  qed
  show ?case
  proof (cases "k = a")
    case True
    have "max a m \<le> fold max ks (max a m)" by (rule mono)
    then show ?thesis using True by simp
  next
    case False
    then have "k \<in> set ks" using Cons.prems by simp
    then show ?thesis using Cons.IH by simp
  qed
qed

lemma new_handle_fresh: "new_handle s \<notin> fst ` set (pens s)" "new_handle s \<noteq> 0"
proof -
  show "new_handle s \<notin> fst ` set (pens s)"
  proof
    assume "new_handle s \<in> fst ` set (pens s)"
    then have "new_handle s \<in> set (map fst (pens s))" by simp
    then have "new_handle s \<le> fold max (map fst (pens s)) 0" by (rule fold_max_ge)
    then show False by (simp add: new_handle_def)
  qed
  show "new_handle s \<noteq> 0" by (simp add: new_handle_def)
qed

lemma filter_fresh: "h \<notin> fst ` set xs \<Longrightarrow> filter (\<lambda>e. fst e \<noteq> h) xs = xs"
  by (induction xs) auto

text \<open>
  C6: for every state in which the device context has a live pen selected, whatever its
  colour and width, \<open>change_pen_width\<close> followed by \<open>reset_pen_width\<close> with the returned
  handle gives back the state before the call: the same pen is selected, with the same
  colour and width, and the table of live pens is the old one, so the temporary pen is
  released. When the pen could be created, the handle returned is the old pen and the pen
  selected in between has the requested width and the current colour.
\<close>

theorem pen_width_round_trip:
  assumes "is_pen s (dc_pen s)"
  shows "case change_pen_width width s of (data, s1) \<Rightarrow>
           reset_pen_width data s1 = s
         \<and> dc_pen (reset_pen_width data s1) = dc_pen s
         \<and> selected_pen (reset_pen_width data s1) = selected_pen s
         \<and> pens (reset_pen_width data s1) = pens s
         \<and> (length (pens s) < gdi_quota s \<longrightarrow>
              data = dc_pen s \<and> selected_pen s1 = Some \<lparr>pen_color = fl_RGB s, pen_width = width\<rparr>
              \<and> length (pens s1) = length (pens s) + 1)"
proof (cases "gdi_quota s \<le> length (pens s)")
  case True
  then show ?thesis
    by (simp add: change_pen_width_def reset_pen_width_def ExtCreatePen_def SelectObject_def
          DeleteObject_def is_pen_def)
next
  case False
  let ?h = "new_handle s"
  let ?p = "\<lparr>pen_color = fl_RGB s, pen_width = width\<rparr>"
  let ?s1 = "s\<lparr>pens := (?h, ?p) # pens s, dc_pen := ?h\<rparr>"
  have fresh: "?h \<notin> fst ` set (pens s)" "?h \<noteq> 0" by (rule new_handle_fresh)+
  have old: "dc_pen s \<noteq> 0" "map_of (pens s) (dc_pen s) \<noteq> None"
    using assms by (simp_all add: is_pen_def)
  then have "dc_pen s \<in> fst ` set (pens s)" by (simp add: map_of_eq_None_iff)
  then have ne: "dc_pen s \<noteq> ?h" using fresh(1) by force
  have c: "change_pen_width width s = (dc_pen s, ?s1)"
    using False fresh(2)
    by (simp add: change_pen_width_def ExtCreatePen_def SelectObject_def is_pen_def)
  have r: "reset_pen_width (dc_pen s) ?s1 = s"
    using ne old fresh
    by (simp add: reset_pen_width_def SelectObject_def DeleteObject_def is_pen_def filter_fresh)
  show ?thesis
    using False by (simp add: c r selected_pen_def)
qed

theorem pen_width_round_trip_witness:
  "is_pen unit_driver (dc_pen unit_driver)
   \<and> fst (change_pen_width 3 unit_driver) = 1
   \<and> selected_pen (snd (change_pen_width 3 unit_driver)) = Some \<lparr>pen_color = 0, pen_width = 3\<rparr>
   \<and> reset_pen_width 1 (snd (change_pen_width 3 unit_driver)) = unit_driver
   \<and> selected_pen unit_driver = Some \<lparr>pen_color = 0, pen_width = 1\<rparr>"
proof -
  have h: "is_pen unit_driver (dc_pen unit_driver)"
    by (simp add: is_pen_def unit_driver_def)
  have q: "length (pens unit_driver) < gdi_quota unit_driver" "dc_pen unit_driver = 1"
    "fl_RGB unit_driver = 0" "selected_pen unit_driver = Some \<lparr>pen_color = 0, pen_width = 1\<rparr>"
    by (simp_all add: unit_driver_def selected_pen_def)
  show ?thesis
    using h pen_width_round_trip [OF h, of 3]
    by (simp add: q split: prod.splits)
qed

section \<open>The floor rule\<close>

lemma floor_step_up:
  assumes "1 \<le> (s::real)"
  shows "\<lfloor>s * of_int (n - 1)\<rfloor> + 1 \<le> \<lfloor>s * of_int n\<rfloor>"
proof -
  have "s * of_int (n - 1) + 1 \<le> s * of_int n"
    using assms by (simp add: algebra_simps)
  then have "\<lfloor>s * of_int (n - 1) + 1\<rfloor> \<le> \<lfloor>s * of_int n\<rfloor>"
    by (rule floor_mono)
  then show ?thesis by simp
qed

lemma floor_step_down:
  assumes "0 < (s::real)" "s \<le> 1"
  shows "\<lfloor>s * of_int n\<rfloor> \<le> \<lfloor>s * of_int (n - 1)\<rfloor> + 1"
proof -
  have "s * of_int n \<le> s * of_int (n - 1) + 1"
    using assms by (simp add: algebra_simps)
  then have "\<lfloor>s * of_int n\<rfloor> \<le> \<lfloor>s * of_int (n - 1) + 1\<rfloor>"
    by (rule floor_mono)
  then show ?thesis by simp
qed

text \<open>
  C7, as amended: \<open>overlay_rect\<close> outlines the device rectangle whose lower bounds are the
  \<open>floor\<close> of the coordinates and whose upper bounds are the \<open>floor\<close> of coordinate + length
  - 1. For two logical edges that share a boundary, the second starting at \<open>x + w\<close>, the
  device spans are exactly adjacent when the scale factor is 1; they never overlap when
  the scale factor is at least 1, and they never leave a gap when it is positive and at
  most 1.
\<close>

theorem floor_rule_spans:
  "overlay_rect d x y w h =
     (case (device_span d x w, device_span d y h) of
        ((l, r), (t, b)) \<Rightarrow>
          [SetLineStyle (if color d = FL_WHITE d then FL_SOLID else FL_DOT) 1,
           MoveToEx l t, LineTo r t, LineTo r b, LineTo l b, LineTo l t])
   \<and> (scale d = 1 \<longrightarrow> fst (device_span d (x + w) w') = snd (device_span d x w) + 1)
   \<and> (1 \<le> scale d \<longrightarrow> snd (device_span d x w) < fst (device_span d (x + w) w'))
   \<and> (0 < scale d \<and> scale d \<le> 1 \<longrightarrow>
        fst (device_span d (x + w) w') \<le> snd (device_span d x w) + 1)"
proof -
  have a: "1 \<le> scale d \<longrightarrow> snd (device_span d x w) < fst (device_span d (x + w) w')"
    using floor_step_up [of "scale d" "x + w"]
    by (auto simp: device_span_def floor_scaled_def)
  have b: "0 < scale d \<and> scale d \<le> 1 \<longrightarrow>
        fst (device_span d (x + w) w') \<le> snd (device_span d x w) + 1"
    using floor_step_down [of "scale d" "x + w"]
    by (auto simp: device_span_def floor_scaled_def)
  have c: "scale d = 1 \<longrightarrow> fst (device_span d (x + w) w') = snd (device_span d x w) + 1"
    by (simp add: device_span_def floor_scaled_def)
  show ?thesis
    using a b c by (simp add: overlay_rect_def device_span_def Let_def)
qed

theorem floor_rule_spans_witness:
  "scale unit_driver = 1
   \<and> device_span unit_driver 0 10 = (0, 9) \<and> device_span unit_driver 10 5 = (10, 14)
   \<and> overlay_rect unit_driver 0 0 10 10 =
       [SetLineStyle FL_DOT 1, MoveToEx 0 0, LineTo 9 0, LineTo 9 9, LineTo 0 9, LineTo 0 0]"
  using floor_rule_spans [of unit_driver 0 0 10 10 5]
  by (simp add: unit_driver_def device_span_def floor_scaled_def)

text \<open>
  At scale 2 the edges \<open>(0, 1)\<close> and \<open>(1, 1)\<close> map to the device pixels 0 and 2, and pixel 1
  is left out; at scale 1/2 both map to pixel 0 and overlap.
\<close>

theorem floor_rule_spans_counterexample:
  "device_span (unit_driver\<lparr>scale := 2\<rparr>) 0 1 = (0, 0)
   \<and> device_span (unit_driver\<lparr>scale := 2\<rparr>) 1 1 = (2, 2)
   \<and> device_span (unit_driver\<lparr>scale := 1 / 2\<rparr>) 0 1 = (0, 0)
   \<and> device_span (unit_driver\<lparr>scale := 1 / 2\<rparr>) 1 1 = (0, 0)"
  by (simp add: device_span_def floor_scaled_def)

section \<open>Terminal pixels\<close>

text \<open>
  C8, as amended: for all coordinates, the pixels set by both forms of \<open>line_unscaled\<close>
  include the final end point, which is set by a call of its own after the native line
  that omits it. \<open>xyline_unscaled\<close> and \<open>yxline_unscaled\<close> set no pixel of their own but draw
  the native line one pixel further; the pixels they set include the end point when the
  line runs rightwards or downwards (\<open>x \<le> x1\<close>, \<open>y \<le> y1\<close>).
\<close>

theorem terminal_pixel_drawn:
  "(x1, y1) \<in> paint R p (line_unscaled d x y x1 y1)
   \<and> last (line_unscaled d x y x1 y1) = SetPixel x1 y1 (fl_RGB d)
   \<and> (x2, y2) \<in> paint R p (line_unscaled_3 d x y x1 y1 x2 y2)
   \<and> last (line_unscaled_3 d x y x1 y1 x2 y2) = SetPixel x2 y2 (fl_RGB d)
   \<and> xyline_unscaled x y x1 = [MoveToEx x y, LineTo (x1 + 1) y]
   \<and> yxline_unscaled x y y1 = [MoveToEx x y, LineTo x (y1 + 1)]
   \<and> (x \<le> x1 \<longrightarrow> (x1, y) \<in> paint R p (xyline_unscaled x y x1))
   \<and> (y \<le> y1 \<longrightarrow> (x, y1) \<in> paint R p (yxline_unscaled x y y1))"
  by (simp add: line_unscaled_def line_unscaled_3_def xyline_unscaled_def yxline_unscaled_def
        LineTo_pixels_def axis_line_def)

theorem terminal_pixel_drawn_witness:
  "(1::int) \<le> 5 \<and> (2::int) \<le> 7
   \<and> (5, 2) \<in> paint (\<lambda>p q. {}) (0, 0) (xyline_unscaled 1 2 5)
   \<and> (1, 7) \<in> paint (\<lambda>p q. {}) (0, 0) (yxline_unscaled 1 2 7)
   \<and> (5, 7) \<in> paint (\<lambda>p q. {}) (0, 0) (line_unscaled unit_driver 1 2 5 7)"
proof -
  have h: "(1::int) \<le> 5" "(2::int) \<le> 7" by simp_all
  note t = terminal_pixel_drawn [where R = "\<lambda>p q. {}" and p = "(0, 0)" and d = unit_driver
      and x = 1 and y = 2 and ?x1.0 = 5 and ?y1.0 = 7 and ?x2.0 = 9 and ?y2.0 = 9]
  have "(5, 2) \<in> paint (\<lambda>p q. {}) (0, 0) (xyline_unscaled 1 2 5)"
    and "(1, 7) \<in> paint (\<lambda>p q. {}) (0, 0) (yxline_unscaled 1 2 7)"
    and "(5, 7) \<in> paint (\<lambda>p q. {}) (0, 0) (line_unscaled unit_driver 1 2 5 7)"
    using t h by blast+
  with h show ?thesis by blast
qed

text \<open>
  A line running leftwards or upwards: \<open>xyline_unscaled(5, 0, 2)\<close> sets the pixels
  \<open>(4, 0)\<close> and \<open>(5, 0)\<close> only, not the end point \<open>(2, 0)\<close>, and likewise for
  \<open>yxline_unscaled(0, 5, 2)\<close>.
\<close>

theorem terminal_pixel_drawn_counterexample:
  "paint (\<lambda>p q. {}) (0, 0) (xyline_unscaled 5 0 2) = {(4, 0), (5, 0)}
   \<and> (2, 0) \<notin> paint (\<lambda>p q. {}) (0, 0) (xyline_unscaled 5 0 2)
   \<and> paint (\<lambda>p q. {}) (0, 0) (yxline_unscaled 0 5 2) = {(0, 4), (0, 5)}
   \<and> (0, 2) \<notin> paint (\<lambda>p q. {}) (0, 0) (yxline_unscaled 0 5 2)"
  by (auto simp: xyline_unscaled_def yxline_unscaled_def LineTo_pixels_def axis_line_def)

section \<open>The focus rectangle\<close>

text \<open>
  What the four loops do: every call of \<open>focus_rect\<close> is a \<open>SetPixel\<close> in the current colour
  on the outline of the pixel rectangle that starts at the floor-rule lower bounds and
  ends one pixel beyond the floor-rule upper bounds.
\<close>

lemma focus_up_calls:
  "call \<in> set (fst (focus_up px c n xx i)) \<Longrightarrow>
   \<exists>k. xx \<le> k \<and> k < n \<and> call = SetPixel (fst (px k)) (snd (px k)) c"
proof (induction px c n xx i rule: focus_up.induct)
  case (1 px c n xx i)
  show ?case
  proof (cases "xx < n")
    case False
    then show ?thesis using "1.prems" by (simp add: focus_up.simps)
  next
    case True
    obtain cs i' where rec: "focus_up px c n (xx + 1) (i + 1) = (cs, i')"
      by (cases "focus_up px c n (xx + 1) (i + 1)")
    have "call = SetPixel (fst (px xx)) (snd (px xx)) c \<or> call \<in> set cs"
      using "1.prems" True rec
      by (subst (asm) focus_up.simps) (auto split: if_splits)
    then show ?thesis
    proof
      assume "call = SetPixel (fst (px xx)) (snd (px xx)) c"
      then show ?thesis using True by auto
    next
      assume "call \<in> set cs"
      then have "call \<in> set (fst (focus_up px c n (xx + 1) (i + 1)))" by (simp add: rec)
      then obtain k where "xx + 1 \<le> k" "k < n" "call = SetPixel (fst (px k)) (snd (px k)) c"
        using "1.IH" [OF True] by blast
      then show ?thesis by (intro exI [of _ k]) simp
    qed
  qed
qed

lemma focus_down_calls:
  "call \<in> set (fst (focus_down px c xx i)) \<Longrightarrow>
   \<exists>k. 0 < k \<and> k \<le> xx \<and> call = SetPixel (fst (px k)) (snd (px k)) c"
proof (induction px c xx i rule: focus_down.induct)
  case (1 px c xx i)
  show ?case
  proof (cases "xx > 0")
    case False
    then show ?thesis using "1.prems" by (simp add: focus_down.simps)
  next
    case True
    obtain cs i' where rec: "focus_down px c (xx - 1) (i + 1) = (cs, i')"
      by (cases "focus_down px c (xx - 1) (i + 1)")
    have "call = SetPixel (fst (px xx)) (snd (px xx)) c \<or> call \<in> set cs"
      using "1.prems" True rec
      by (subst (asm) focus_down.simps) (auto split: if_splits)
    then show ?thesis
    proof
      assume "call = SetPixel (fst (px xx)) (snd (px xx)) c"
      then show ?thesis using True by auto
    next
      assume "call \<in> set cs"
      then have "call \<in> set (fst (focus_down px c (xx - 1) (i + 1)))" by (simp add: rec)
      then obtain k where "0 < k" "k \<le> xx - 1" "call = SetPixel (fst (px k)) (snd (px k)) c"
        using "1.IH" [OF True] by blast
      then show ?thesis by (intro exI [of _ k]) simp
    qed
  qed
qed

lemma focus_rect_outline:
  assumes "device_span d x0 w0 = (l, r)" "device_span d y0 h0 = (t, b)"
    and "l \<le> r + 1" "t \<le> b + 1"
    and "call \<in> set (focus_rect d x0 y0 w0 h0)"
  shows "\<exists>px py. call = SetPixel px py (fl_RGB d) \<and> on_perimeter l t (r + 1) (b + 1) (px, py)"
proof -
  let ?w = "r - l + 1" and ?h = "b - t + 1"
  let ?c = "fl_RGB d"
  have fl: "floor_scaled d x0 = l" "floor_scaled d (x0 + w0 - 1) = r"
    "floor_scaled d y0 = t" "floor_scaled d (y0 + h0 - 1) = b"
    using assms(1,2) by (simp_all add: device_span_def)
  obtain c1 i1 where e1: "focus_up (\<lambda>xx. (l + xx, t)) ?c ?w 0 1 = (c1, i1)"
    by (cases "focus_up (\<lambda>xx. (l + xx, t)) ?c ?w 0 1")
  obtain c2 i2 where e2: "focus_up (\<lambda>yy. (r + 1, t + yy)) ?c ?h 0 i1 = (c2, i2)"
    by (cases "focus_up (\<lambda>yy. (r + 1, t + yy)) ?c ?h 0 i1")
  obtain c3 i3 where e3: "focus_down (\<lambda>xx. (l + xx, b + 1)) ?c ?w i2 = (c3, i3)"
    by (cases "focus_down (\<lambda>xx. (l + xx, b + 1)) ?c ?w i2")
  obtain c4 i4 where e4: "focus_down (\<lambda>yy. (l, t + yy)) ?c ?h i3 = (c4, i4)"
    by (cases "focus_down (\<lambda>yy. (l, t + yy)) ?c ?h i3")
  have "focus_rect d x0 y0 w0 h0 = c1 @ c2 @ c3 @ c4"
    by (simp add: focus_rect_def fl Let_def e1 e2 e3 e4)
  then consider "call \<in> set c1" | "call \<in> set c2" | "call \<in> set c3" | "call \<in> set c4"
    using assms(5) by auto
  then show ?thesis
  proof cases
    case 1
    then have "call \<in> set (fst (focus_up (\<lambda>xx. (l + xx, t)) ?c ?w 0 1))" by (simp add: e1)
    from focus_up_calls [OF this] show ?thesis
      using assms(3,4) by (auto simp: on_perimeter_def)
  next
    case 2
    then have "call \<in> set (fst (focus_up (\<lambda>yy. (r + 1, t + yy)) ?c ?h 0 i1))" by (simp add: e2)
    from focus_up_calls [OF this] show ?thesis
      using assms(3,4) by (auto simp: on_perimeter_def)
  next
    case 3
    then have "call \<in> set (fst (focus_down (\<lambda>xx. (l + xx, b + 1)) ?c ?w i2))" by (simp add: e3)
    from focus_down_calls [OF this] show ?thesis
      using assms(3,4) by (auto simp: on_perimeter_def)
  next
    case 4
    then have "call \<in> set (fst (focus_down (\<lambda>yy. (l, t + yy)) ?c ?h i3))" by (simp add: e4)
    from focus_down_calls [OF this] show ?thesis
      using assms(3,4) by (auto simp: on_perimeter_def)
  qed
qed

text \<open>
  C9 does not hold of the code: at scale 1, \<open>focus_rect(0, 0, 3, 3)\<close> sets the pixels
  \<open>(3, 1)\<close> and \<open>(3, 3)\<close> in column 3 and \<open>(1, 3)\<close> in row 3, while the floor rule gives the
  device bounds 0 and 2 in both directions, the rectangle that \<open>overlay_rect\<close> outlines
  for the same arguments.
\<close>

theorem focus_rect_beyond_floor_rule:
  "focus_rect unit_driver 0 0 3 3 =
     [SetPixel 0 0 0, SetPixel 2 0 0, SetPixel 3 1 0, SetPixel 3 3 0, SetPixel 1 3 0,
      SetPixel 0 2 0]
   \<and> device_span unit_driver 0 3 = (0, 2)
   \<and> \<not> on_perimeter 0 0 2 2 (3, 1)
   \<and> overlay_rect unit_driver 0 0 3 3 =
       [SetLineStyle FL_DOT 1, MoveToEx 0 0, LineTo 2 0, LineTo 2 2, LineTo 0 2, LineTo 0 0]"
  by (simp add: focus_rect_def unit_driver_def floor_scaled_def Let_def focus_up.simps
        focus_down.simps device_span_def on_perimeter_def overlay_rect_def)

section \<open>Points\<close>

text \<open>
  C10: for every coordinate pair, \<open>point(x, y)\<close> is \<open>rectf(x, y, 1, 1)\<close>: a single
  \<open>FillRect\<close> of one device pixel with the current brush, and no call that uses the pen.
\<close>

theorem point_is_rectf:
  "point d x y = rectf d x y 1 1
   \<and> point d x y =
       [FillRect (floor_scaled d x) (floor_scaled d y)
          (floor_scaled d x + 1) (floor_scaled d y + 1) (fl_brush d)]
   \<and> brush_fill_only d (point d x y)"
  by (simp add: point_def rectf_def rectf_unscaled_def brush_fill_only_def)


end
